theory Spec2Isabelle
  imports Complex_Main
begin

section \<open>Values of the program\<close>

text \<open>
  The program (\<^verbatim>\<open>src/index.ts\<close>) handles whatever \<^verbatim>\<open>JSON.parse\<close> returns, typed
  \<^verbatim>\<open>any\<close>. A parsed document is a tree of JavaScript values: \<^verbatim>\<open>null\<close>, a boolean, a
  number, a string, an array or a plain object. A number is a double. The program only
  tests numbers for equality and for being zero, so a finite number is represented by its
  exact rational value (\<^verbatim>\<open>0\<close> and \<^verbatim>\<open>-0\<close> are the same key and both falsy). A literal
  beyond the range of the doubles, such as \<^verbatim>\<open>1e400\<close>, parses to \<^verbatim>\<open>Infinity\<close> or
  \<^verbatim>\<open>-Infinity\<close>: \<open>JInfinity negative\<close>. \<^verbatim>\<open>NaN\<close> never comes out of \<^verbatim>\<open>JSON.parse\<close>. An
  object is the list of its own properties in order; \<^verbatim>\<open>JSON.parse\<close> gives objects whose
  property names are distinct. The JavaScript value \<^verbatim>\<open>undefined\<close> is \<open>None\<close> of
  \<open>json option\<close>.
\<close>

datatype json =
    JNull
  | JBool bool
  | JNum rat
  | JInfinity bool
  | JStr string
  | JArr "json list"
  | JObj "(string \<times> json) list"

text \<open>
  What the program can throw: a \<^verbatim>\<open>TypeError\<close> of the language (reading a property of
  \<^verbatim>\<open>null\<close>, calling what is not a function), its own
  \<^verbatim>\<open>Error(`Invalid export format "${format}"`)\<close>, and an error raised by the outside
  world (file system, glob, CSV library), kept with its message.
\<close>

datatype error =
    TypeError
  | InvalidExportFormat string
  | External string

text \<open>
  An \<^verbatim>\<open>async\<close> function returns a promise. A promise that the outside world never
  settles stays pending.
\<close>

datatype 'a promise = Fulfilled 'a | Rejected error | Pending

subsection \<open>Property access and the operators of the source\<close>

text \<open>
  \<open>property name v\<close> is \<^verbatim>\<open>v[name]\<close> for a value \<open>v\<close> other than \<^verbatim>\<open>null\<close> and a name that no
  built-in prototype defines. The source reads three such names: \<^verbatim>\<open>features\<close>,
  \<^verbatim>\<open>attributes\<close> and \<^verbatim>\<open>objectid\<close>. On a boolean, a number, a string or an array the
  result is \<^verbatim>\<open>undefined\<close>.
\<close>

fun property :: "string \<Rightarrow> json \<Rightarrow> json option" where
  "property name (JObj properties) = map_of properties name"
| "property name v = None"

text \<open>\<^verbatim>\<open>a ?? b\<close>: \<open>b\<close> when \<open>a\<close> is \<^verbatim>\<open>undefined\<close> or \<^verbatim>\<open>null\<close>.\<close>

fun nullish :: "json option \<Rightarrow> json \<Rightarrow> json" where
  "nullish None d = d"
| "nullish (Some JNull) d = d"
| "nullish (Some v) d = v"

text \<open>\<^verbatim>\<open>v?.name\<close>: \<^verbatim>\<open>undefined\<close> when \<open>v\<close> is \<^verbatim>\<open>null\<close>, the property otherwise.\<close>

fun optional_chain :: "json \<Rightarrow> string \<Rightarrow> json option" where
  "optional_chain JNull name = None"
| "optional_chain v name = property name v"

text \<open>\<^verbatim>\<open>Boolean(v)\<close>: \<^verbatim>\<open>null\<close>, \<^verbatim>\<open>false\<close>, zero and the empty string are falsy.\<close>

fun Boolean :: "json \<Rightarrow> bool" where
  "Boolean JNull = False"
| "Boolean (JBool b) = b"
| "Boolean (JNum n) = (n \<noteq> 0)"
| "Boolean (JInfinity negative) = True"
| "Boolean (JStr s) = (s \<noteq> [])"
| "Boolean (JArr xs) = True"
| "Boolean (JObj properties) = True"

section \<open>Entry extractor\<close>

text \<open>
  \<^verbatim>\<open>
  const extractEntries = (fileContent: any): Entry[] => {
    return (fileContent.features ?? [])
      .map((feature: any) => feature?.attributes ?? null)
      .filter(Boolean);
  };
  \<close>
  Reading \<^verbatim>\<open>.features\<close> of \<^verbatim>\<open>null\<close> throws a TypeError. \<^verbatim>\<open>.map\<close> is a function only
  on an array: on a number, a boolean or a string it is \<^verbatim>\<open>undefined\<close>, on an object it
  is \<^verbatim>\<open>undefined\<close> or a parsed value, and calling either throws a TypeError.
\<close>

definition attributesOf :: "json \<Rightarrow> json" where
  "attributesOf feature = nullish (optional_chain feature ''attributes'') JNull"

definition extractEntries :: "json \<Rightarrow> error + json list" where
  "extractEntries fileContent =
     (if fileContent = JNull then Inl TypeError
      else case nullish (property ''features'' fileContent) (JArr []) of
             JArr features \<Rightarrow> Inr (filter Boolean (map attributesOf features))
           | _ \<Rightarrow> Inl TypeError)"

section \<open>The outside world\<close>

text \<open>
  The source calls the language runtime (\<^verbatim>\<open>JSON.parse\<close>, \<^verbatim>\<open>JSON.stringify\<close>), Node
  (\<^verbatim>\<open>path.dirname\<close>, \<^verbatim>\<open>fs.promises\<close>) and two packages (\<^verbatim>\<open>glob\<close>,
  \<^verbatim>\<open>papaparse\<close>). None of them is code of the program; each is a field of the record
  below, so every theorem holds for whatever they compute.
  \<^item> \<open>JSON_parse\<close>: \<open>None\<close> when \<^verbatim>\<open>JSON.parse\<close> throws;
  \<^item> \<open>JSON_stringify entries\<close>: \<^verbatim>\<open>JSON.stringify(entries, null, 2)\<close>;
  \<^item> \<open>Papa_unparse entries\<close>: \<^verbatim>\<open>Papa.unparse(entries)\<close>, \<open>Inl\<close> the message when it
    throws;
  \<^item> \<open>glob_matches pattern\<close>: what \<^verbatim>\<open>glob\<close> hands to its callback, \<open>Inl\<close> a truthy
    \<^verbatim>\<open>err\<close>, \<open>Inr\<close> the \<^verbatim>\<open>filenames\<close> (\<open>None\<close> when nullish);
  \<^item> \<open>fsp_readFile\<close>, \<open>fsp_mkdir\<close>, \<open>fsp_writeFile\<close>: the outcome of the call, with the
    message of the error when it fails. File contents are fixed during a run.
\<close>

datatype file_data = Text string | Entries "json list"

record runtime =
  JSON_parse :: "string \<Rightarrow> json option"
  JSON_stringify :: "json list \<Rightarrow> string"
  Papa_unparse :: "json list \<Rightarrow> string + string"
  path_dirname :: "string \<Rightarrow> string"
  glob_matches :: "string \<Rightarrow> string + string list option"
  fsp_readFile :: "string \<Rightarrow> string + string"
  fsp_mkdir :: "string \<Rightarrow> string option"
  fsp_writeFile :: "string \<Rightarrow> file_data \<Rightarrow> string option"

section \<open>File locator and file loader\<close>

text \<open>
  \<^verbatim>\<open>
  glob(pattern, (err, filenames) => {
    if (err) { rej(err); return; }
    res(filenames ?? []);
  });
  \<close>
\<close>

definition readFiles :: "runtime \<Rightarrow> string \<Rightarrow> string list promise" where
  "readFiles rt pattern =
     (case glob_matches rt pattern of
        Inl err \<Rightarrow> Rejected (External err)
      | Inr filenames \<Rightarrow> Fulfilled (case filenames of None \<Rightarrow> [] | Some fs \<Rightarrow> fs))"

text \<open>
  \<^verbatim>\<open>
  const content = await fsp.readFile(filename, "utf-8");
  try { return JSON.parse(content); } catch (err) { return {}; }
  \<close>
  A failed read rejects; a failed parse gives the empty object.
\<close>

definition loadFile :: "runtime \<Rightarrow> string \<Rightarrow> error + json" where
  "loadFile rt filename =
     (case fsp_readFile rt filename of
        Inl err \<Rightarrow> Inl (External err)
      | Inr content \<Rightarrow>
          Inr (case JSON_parse rt content of None \<Rightarrow> JObj [] | Some document \<Rightarrow> document))"

section \<open>Merge engine\<close>

text \<open>
  The task that \<^verbatim>\<open>processEntryFiles\<close> starts for each file name:
  \<^verbatim>\<open>
  async (filename) => {
    const fileData = await loadFile(filename);
    const fileEntries = extractEntries(fileData);
    return fileEntries;
  }
  \<close>
\<close>

definition fileTask :: "runtime \<Rightarrow> string \<Rightarrow> error + json list" where
  "fileTask rt filename =
     (case loadFile rt filename of
        Inl err \<Rightarrow> Inl err
      | Inr fileData \<Rightarrow> extractEntries fileData)"

subsection \<open>\<^verbatim>\<open>Promise.all\<close>\<close>

text \<open>
  The tasks run concurrently and complete in an order the program does not control. A
  schedule is that order: the list of task indices, in order of completion.
  \<^verbatim>\<open>Promise.all\<close> keeps one slot per task. A task that fulfils stores its value in its
  own slot; the first task that rejects rejects the whole; when every slot is filled the
  whole fulfils with the slots in task order. An index that names no task is ignored, and
  while a slot is empty the whole stays pending.
\<close>

fun settle :: "(error + 'a) list \<Rightarrow> nat list \<Rightarrow> 'a option list \<Rightarrow> error + 'a option list" where
  "settle outcomes [] slots = Inr slots"
| "settle outcomes (i # later) slots =
     (if i < length outcomes
      then (case outcomes ! i of
              Inl reason \<Rightarrow> Inl reason
            | Inr v \<Rightarrow> settle outcomes later (slots[i := Some v]))
      else settle outcomes later slots)"

definition Promise_all :: "nat list \<Rightarrow> (error + 'a) list \<Rightarrow> 'a list promise" where
  "Promise_all schedule outcomes =
     (case settle outcomes schedule (replicate (length outcomes) None) of
        Inl reason \<Rightarrow> Rejected reason
      | Inr slots \<Rightarrow> (case those slots of None \<Rightarrow> Pending | Some vs \<Rightarrow> Fulfilled vs))"

text \<open>Every task completes exactly once.\<close>

definition valid_schedule :: "nat \<Rightarrow> nat list \<Rightarrow> bool" where
  "valid_schedule n schedule \<longleftrightarrow> distinct schedule \<and> set schedule = {..<n}"

subsection \<open>\<^verbatim>\<open>uniqBy\<close> of lodash\<close>

text \<open>
  \<^verbatim>\<open>uniqBy(array, iteratee)\<close> walks the array once and keeps an element when the value
  the iteratee computes for it equals none of the values computed for the elements kept
  so far. Values are compared with SameValueZero: \<^verbatim>\<open>undefined\<close>, \<^verbatim>\<open>null\<close>, booleans,
  numbers and strings by value, arrays and objects by identity. Every array and object of
  a parsed document is a fresh one, so two of them met at different places are never the
  same.
\<close>

fun SameValueZero :: "json option \<Rightarrow> json option \<Rightarrow> bool" where
  "SameValueZero None None = True"
| "SameValueZero (Some (JArr xs)) (Some w) = False"
| "SameValueZero (Some (JObj ps)) (Some w) = False"
| "SameValueZero (Some v) (Some w) = (v = w)"
| "SameValueZero a b = False"

fun baseUniq :: "('a \<Rightarrow> json option) \<Rightarrow> 'a list \<Rightarrow> json option list \<Rightarrow> 'a list" where
  "baseUniq iteratee [] seen = []"
| "baseUniq iteratee (x # xs) seen =
     (if list_ex (\<lambda>s. SameValueZero s (iteratee x)) seen
      then baseUniq iteratee xs seen
      else x # baseUniq iteratee xs (seen @ [iteratee x]))"

definition uniqBy :: "'a list \<Rightarrow> ('a \<Rightarrow> json option) \<Rightarrow> 'a list" where
  "uniqBy array iteratee = baseUniq iteratee array []"

subsection \<open>\<^verbatim>\<open>processEntryFiles\<close>\<close>

text \<open>\<^verbatim>\<open>(entry) => entry.objectid\<close>; an entry is never \<^verbatim>\<open>null\<close>, the extractor drops it.\<close>

definition objectid :: "json \<Rightarrow> json option" where
  "objectid entry = property ''objectid'' entry"

text \<open>
  \<^verbatim>\<open>
  const entriesPerFiles = await Promise.all(filenames.map(async (filename) => ...));
  const entries = uniqBy(
    entriesPerFiles.flatMap(fileEntries => fileEntries),
    (entry) => entry.objectid,
  );
  return entries;
  \<close>
\<close>

definition processEntryFiles :: "runtime \<Rightarrow> nat list \<Rightarrow> string list \<Rightarrow> json list promise" where
  "processEntryFiles rt schedule filenames =
     (case Promise_all schedule (map (fileTask rt) filenames) of
        Fulfilled entriesPerFiles \<Rightarrow> Fulfilled (uniqBy (concat entriesPerFiles) objectid)
      | Rejected reason \<Rightarrow> Rejected reason
      | Pending \<Rightarrow> Pending)"

section \<open>Exporter\<close>

text \<open>
  What the exporter does to the outside world, in order: the two \<^verbatim>\<open>console.log\<close> lines,
  \<^verbatim>\<open>fsp.mkdir(outputDir, {recursive: true})\<close> and
  \<^verbatim>\<open>fsp.writeFile(outputFile, fileContent, 'utf-8')\<close>.
\<close>

datatype event =
    LogCreatingDirectory string
  | MkdirRecursive string
  | LogWriting nat string
  | WriteFile string file_data

text \<open>
  \<^verbatim>\<open>options?: {outputFile?: string; format?: ExportFormats}\<close>. The type
  \<^verbatim>\<open>ExportFormats\<close> is \<^verbatim>\<open>'json' | 'csv'\<close>, but the source checks the format at run time,
  so here a format is any string.
\<close>

record save_options =
  outputFile :: "string option"
  format :: "string option"

text \<open>
  \<^verbatim>\<open>
  const formatSerializers: Record<ExportFormats, (entries: Entry[]) => string> = {
    json: (entries) => JSON.stringify(entries, null, 2),
    csv: (entries) => Papa.unparse(entries),
  }
  const serializer = formatSerializers[format];
  if (!serializer) {
  \<close>
  \<^verbatim>\<open>formatSerializers\<close> is an object literal, so \<^verbatim>\<open>formatSerializers[format]\<close> finds its
  two own properties and, for any other name, the property that the object inherits from
  \<^verbatim>\<open>Object.prototype\<close>. The names below are the properties of \<^verbatim>\<open>Object.prototype\<close>
  (ECMAScript, with Annex B); each of them is a function or an object, hence truthy.
\<close>

datatype serializer = own_json | own_csv | inherited string

definition Object_prototype_names :: "string list" where
  "Object_prototype_names =
     [''constructor'', ''__defineGetter__'', ''__defineSetter__'', ''hasOwnProperty'',
      ''__lookupGetter__'', ''__lookupSetter__'', ''isPrototypeOf'',
      ''propertyIsEnumerable'', ''toString'', ''valueOf'', ''__proto__'',
      ''toLocaleString'']"

definition formatSerializers :: "string \<Rightarrow> serializer option" where
  "formatSerializers fmt =
     (if fmt = ''json'' then Some own_json
      else if fmt = ''csv'' then Some own_csv
      else if fmt \<in> set Object_prototype_names then Some (inherited fmt)
      else None)"

text \<open>
  \<^verbatim>\<open>serializer(entries)\<close>, a call with \<^verbatim>\<open>this\<close> undefined. Of the inherited properties,
  \<^verbatim>\<open>toString\<close> returns \<^verbatim>\<open>"[object Undefined]"\<close>, \<^verbatim>\<open>constructor\<close> (that is \<^verbatim>\<open>Object\<close>)
  returns its argument, \<^verbatim>\<open>__proto__\<close> is an object and not callable, and the others
  convert \<^verbatim>\<open>this\<close> to an object first: a TypeError.
\<close>

definition callSerializer :: "runtime \<Rightarrow> serializer \<Rightarrow> json list \<Rightarrow> error + file_data" where
  "callSerializer rt serializer entries =
     (case serializer of
        own_json \<Rightarrow> Inr (Text (JSON_stringify rt entries))
      | own_csv \<Rightarrow>
          (case Papa_unparse rt entries of
             Inl message \<Rightarrow> Inl (External message)
           | Inr csv \<Rightarrow> Inr (Text csv))
      | inherited name \<Rightarrow>
          (if name = ''toString'' then Inr (Text ''[object Undefined]'')
           else if name = ''constructor'' then Inr (Entries entries)
           else Inl TypeError))"

text \<open>
  \<^verbatim>\<open>
  const {outputFile = './output.json', format = 'json'} = options ?? {};
  const outputDir = path.dirname(outputFile);
  console.log(`Creating parent directory "${outputDir}"`)
  await fsp.mkdir(outputDir, {recursive: true});
  console.log(`Writing ${entries.length} entries to file "${outputFile}"`);
  ...
  const serializer = formatSerializers[format];
  if (!serializer) {
    throw Error(`Invalid export format "${format}"`);
  }
  const fileContent = serializer(entries);
  await fsp.writeFile(outputFile, fileContent, 'utf-8');
  \<close>
  The result is the list of events so far and the promise the function returns.
\<close>

definition outputFileOf :: "save_options option \<Rightarrow> string" where
  "outputFileOf options =
     (case options of
        None \<Rightarrow> ''./output.json''
      | Some given \<Rightarrow> (case outputFile given of None \<Rightarrow> ''./output.json'' | Some file \<Rightarrow> file))"

definition formatOf :: "save_options option \<Rightarrow> string" where
  "formatOf options =
     (case options of
        None \<Rightarrow> ''json''
      | Some given \<Rightarrow> (case format given of None \<Rightarrow> ''json'' | Some fmt \<Rightarrow> fmt))"

definition saveEntries ::
  "runtime \<Rightarrow> json list \<Rightarrow> save_options option \<Rightarrow> event list \<times> unit promise" where
  "saveEntries rt entries options =
     (let file = outputFileOf options;
          fmt = formatOf options;
          outputDir = path_dirname rt file;
          started = [LogCreatingDirectory outputDir, MkdirRecursive outputDir]
      in case fsp_mkdir rt outputDir of
           Some message \<Rightarrow> (started, Rejected (External message))
         | None \<Rightarrow>
             (let logged = started @ [LogWriting (length entries) file]
              in case formatSerializers fmt of
                   None \<Rightarrow> (logged, Rejected (InvalidExportFormat fmt))
                 | Some serializer \<Rightarrow>
                     (case callSerializer rt serializer entries of
                        Inl thrown \<Rightarrow> (logged, Rejected thrown)
                      | Inr fileContent \<Rightarrow>
                          (logged @ [WriteFile file fileContent],
                           case fsp_writeFile rt file fileContent of
                             Some message \<Rightarrow> Rejected (External message)
                           | None \<Rightarrow> Fulfilled ()))))"

section \<open>The run\<close>

text \<open>
  \<^verbatim>\<open>
  const files = await readFiles("input/*.json");
  const entries = await processEntryFiles(files);
  await saveEntries(entries, {outputFile: './output/geology-sk.csv', format: 'csv'});
  \<close>
\<close>

definition main :: "runtime \<Rightarrow> nat list \<Rightarrow> event list \<times> unit promise" where
  "main rt schedule =
     (case readFiles rt ''input/*.json'' of
        Rejected reason \<Rightarrow> ([], Rejected reason)
      | Pending \<Rightarrow> ([], Pending)
      | Fulfilled files \<Rightarrow>
          (case processEntryFiles rt schedule files of
             Rejected reason \<Rightarrow> ([], Rejected reason)
           | Pending \<Rightarrow> ([], Pending)
           | Fulfilled entries \<Rightarrow>
               saveEntries rt entries
                 (Some \<lparr>outputFile = Some ''./output/geology-sk.csv'', format = Some ''csv''\<rparr>)))"

section \<open>JSON text\<close>

text \<open>
  \<^verbatim>\<open>JSON.stringify\<close> and \<^verbatim>\<open>JSON.parse\<close> are functions of the language, defined by
  ECMA-262 (section 25.5). This section follows that definition for the values of a parsed
  document, so that a claim about writing records as JSON and reading them back can be
  stated. Two things are parameters: \<open>toString\<close>, the text of a finite number
  (\<^verbatim>\<open>Number::toString\<close>), and \<open>toNumber\<close>, the value of a number literal, \<open>None\<close> when
  the characters are not a JSON number; it is \<^verbatim>\<open>Infinity\<close> for a literal beyond the
  doubles. A \<open>char\<close> stands for a code unit of a JavaScript string, and the model has the
  code units below 256.
\<close>

subsection \<open>\<^verbatim>\<open>JSON.stringify(value, null, 2)\<close>\<close>

text \<open>With a gap of two spaces, each line of a non-empty array or object starts on a new
  line, indented.\<close>

definition newline :: "nat \<Rightarrow> string" where
  "newline indent = CHR 0x0A # replicate indent CHR '' ''"

text \<open>
  \<^verbatim>\<open>QuoteJSONString\<close>: the quote and the backslash are escaped, the control characters
  are written \<^verbatim>\<open>\b\<close>, \<^verbatim>\<open>\t\<close>, \<^verbatim>\<open>\n\<close>, \<^verbatim>\<open>\f\<close>, \<^verbatim>\<open>\r\<close> or as \<^verbatim>\<open>\u00\<close> and two
  lower-case hexadecimal digits, and every other character is written as it is.
\<close>

definition hex_digit :: "nat \<Rightarrow> char" where
  "hex_digit k = (if k < 10 then char_of (48 + k) else char_of (87 + k))"

definition escape :: "char \<Rightarrow> string" where
  "escape c =
     (if c = CHR 0x22 then [CHR 0x5C, CHR 0x22]
      else if c = CHR 0x5C then [CHR 0x5C, CHR 0x5C]
      else if c = CHR 0x08 then [CHR 0x5C, CHR ''b'']
      else if c = CHR 0x09 then [CHR 0x5C, CHR ''t'']
      else if c = CHR 0x0A then [CHR 0x5C, CHR ''n'']
      else if c = CHR 0x0C then [CHR 0x5C, CHR ''f'']
      else if c = CHR 0x0D then [CHR 0x5C, CHR ''r'']
      else if (of_char c :: nat) < 32
      then [CHR 0x5C, CHR ''u'', CHR ''0'', CHR ''0'',
            hex_digit (of_char c div 16), hex_digit (of_char c mod 16)]
      else [c])"

definition QuoteJSONString :: "string \<Rightarrow> string" where
  "QuoteJSONString s = CHR 0x22 # concat (map escape s) @ [CHR 0x22]"

text \<open>
  \<^verbatim>\<open>SerializeJSONProperty\<close>, \<^verbatim>\<open>SerializeJSONArray\<close> and \<^verbatim>\<open>SerializeJSONObject\<close>. A
  number that is not finite is written \<^verbatim>\<open>null\<close>. An empty array is \<^verbatim>\<open>[]\<close> and an empty
  object \<^verbatim>\<open>{}\<close>; otherwise the elements or members come one per line, separated by
  commas, a member as its quoted name, a colon, a space and its value. A parsed document
  holds no function and no \<^verbatim>\<open>undefined\<close>, so no \<^verbatim>\<open>toJSON\<close> is called and no member is
  left out.
\<close>

fun SerializeJSONProperty :: "(rat \<Rightarrow> string) \<Rightarrow> nat \<Rightarrow> json \<Rightarrow> string"
  and SerializeJSONArray :: "(rat \<Rightarrow> string) \<Rightarrow> nat \<Rightarrow> json list \<Rightarrow> string"
  and SerializeJSONObject :: "(rat \<Rightarrow> string) \<Rightarrow> nat \<Rightarrow> (string \<times> json) list \<Rightarrow> string"
where
  "SerializeJSONProperty toString indent JNull = ''null''"
| "SerializeJSONProperty toString indent (JBool b) = (if b then ''true'' else ''false'')"
| "SerializeJSONProperty toString indent (JNum n) = toString n"
| "SerializeJSONProperty toString indent (JInfinity negative) = ''null''"
| "SerializeJSONProperty toString indent (JStr s) = QuoteJSONString s"
| "SerializeJSONProperty toString indent (JArr []) = ''[]''"
| "SerializeJSONProperty toString indent (JArr (x # xs)) =
     ''['' @ newline (indent + 2) @ SerializeJSONArray toString (indent + 2) (x # xs) @
     newline indent @ '']''"
| "SerializeJSONProperty toString indent (JObj []) = ''{}''"
| "SerializeJSONProperty toString indent (JObj (m # ms)) =
     ''{'' @ newline (indent + 2) @ SerializeJSONObject toString (indent + 2) (m # ms) @
     newline indent @ ''}''"
| "SerializeJSONArray toString indent [] = []"
| "SerializeJSONArray toString indent [x] = SerializeJSONProperty toString indent x"
| "SerializeJSONArray toString indent (x # y # ys) =
     SerializeJSONProperty toString indent x @ '','' @ newline indent @
     SerializeJSONArray toString indent (y # ys)"
| "SerializeJSONObject toString indent [] = []"
| "SerializeJSONObject toString indent [(k, v)] =
     QuoteJSONString k @ '': '' @ SerializeJSONProperty toString indent v"
| "SerializeJSONObject toString indent ((k, v) # m # ms) =
     QuoteJSONString k @ '': '' @ SerializeJSONProperty toString indent v @ '','' @
     newline indent @ SerializeJSONObject toString indent (m # ms)"

definition JSON_stringify_text :: "(rat \<Rightarrow> string) \<Rightarrow> json \<Rightarrow> string" where
  "JSON_stringify_text toString v = SerializeJSONProperty toString 0 v"

subsection \<open>\<^verbatim>\<open>JSON.parse(text)\<close>\<close>

text \<open>
  JSON white space is the space, the tab, the line feed and the carriage return. A number
  literal is made of digits, signs, the point and the exponent letter; the parser takes
  the longest run of such characters and hands it to \<open>toNumber\<close>.
\<close>

definition whitespace :: "char \<Rightarrow> bool" where
  "whitespace c \<longleftrightarrow> c = CHR 0x20 \<or> c = CHR 0x09 \<or> c = CHR 0x0A \<or> c = CHR 0x0D"

definition number_char :: "char \<Rightarrow> bool" where
  "number_char c \<longleftrightarrow> c \<in> set ''0123456789+-.eE''"

text \<open>
  The characters of a string after its opening quote, up to the closing quote: the
  escapes \<^verbatim>\<open>\"\<close>, \<^verbatim>\<open>\\\<close>, \<^verbatim>\<open>\/\<close>, \<^verbatim>\<open>\b\<close>, \<^verbatim>\<open>\f\<close>, \<^verbatim>\<open>\n\<close>, \<^verbatim>\<open>\r\<close>, \<^verbatim>\<open>\t\<close> and
  \<^verbatim>\<open>\u\<close> with four hexadecimal digits; a control character that is not escaped is a
  syntax error. The result is the string and the text after the closing quote. An escape
  \<^verbatim>\<open>\u\<close> for a code unit of 256 or more names a character the model does not have, and
  gives \<open>None\<close>.
\<close>

definition hex_value :: "char \<Rightarrow> nat option" where
  "hex_value c =
     (let n = of_char c :: nat
      in if 48 \<le> n \<and> n \<le> 57 then Some (n - 48)
         else if 97 \<le> n \<and> n \<le> 102 then Some (n - 87)
         else if 65 \<le> n \<and> n \<le> 70 then Some (n - 55)
         else None)"

definition unescape :: "char \<Rightarrow> char option" where
  "unescape e =
     (if e = CHR 0x22 then Some (CHR 0x22)
      else if e = CHR 0x5C then Some (CHR 0x5C)
      else if e = CHR ''/'' then Some (CHR ''/'')
      else if e = CHR ''b'' then Some (CHR 0x08)
      else if e = CHR ''f'' then Some (CHR 0x0C)
      else if e = CHR ''n'' then Some (CHR 0x0A)
      else if e = CHR ''r'' then Some (CHR 0x0D)
      else if e = CHR ''t'' then Some (CHR 0x09)
      else None)"

fun JSONString :: "string \<Rightarrow> (string \<times> string) option" where
  "JSONString [] = None"
| "JSONString (c # cs) =
     (if c = CHR 0x22 then Some ([], cs)
      else if c = CHR 0x5C then
        (case cs of
           [] \<Rightarrow> None
         | e # es \<Rightarrow>
             if e = CHR ''u'' then
               (case es of
                  h1 # h2 # h3 # h4 # rest \<Rightarrow>
                    (case (hex_value h1, hex_value h2, hex_value h3, hex_value h4) of
                       (Some a, Some b, Some c, Some d) \<Rightarrow>
                         (let code = ((a * 16 + b) * 16 + c) * 16 + d
                          in if code < 256
                             then map_option (\<lambda>(s, r). (char_of code # s, r)) (JSONString rest)
                             else None)
                     | _ \<Rightarrow> None)
                | _ \<Rightarrow> None)
             else
               (case unescape e of
                  None \<Rightarrow> None
                | Some d \<Rightarrow> map_option (\<lambda>(s, r). (d # s, r)) (JSONString es)))
      else if (of_char c :: nat) < 32 then None
      else map_option (\<lambda>(s, r). (c # s, r)) (JSONString cs))"

text \<open>
  An object is built by defining its members one after the other. Defining a name that
  the object has already replaces the value and keeps the place. The properties of an
  object are listed with the array indices first (the canonical decimal numerals below
  \<open>2\<^sup>3\<^sup>2 - 1\<close>), in ascending order, and then the other names in the order of their
  creation; \<open>listed_before k k'\<close> says that a new name \<open>k\<close> goes before an existing \<open>k'\<close>.
\<close>

definition decimal_value :: "string \<Rightarrow> nat" where
  "decimal_value k = foldl (\<lambda>a c. 10 * a + (of_char c - 48)) 0 k"

definition array_index :: "string \<Rightarrow> nat option" where
  "array_index k =
     (if k \<noteq> [] \<and> list_all (\<lambda>c. 48 \<le> (of_char c :: nat) \<and> (of_char c :: nat) \<le> 57) k \<and>
         (k = ''0'' \<or> hd k \<noteq> CHR ''0'') \<and> decimal_value k < 4294967295
      then Some (decimal_value k) else None)"

definition listed_before :: "string \<Rightarrow> string \<Rightarrow> bool" where
  "listed_before k k' =
     (case array_index k of
        None \<Rightarrow> False
      | Some i \<Rightarrow> (case array_index k' of None \<Rightarrow> True | Some j \<Rightarrow> i < j))"

fun insert_property :: "(string \<times> json) list \<Rightarrow> string \<Rightarrow> json \<Rightarrow> (string \<times> json) list" where
  "insert_property [] k v = [(k, v)]"
| "insert_property (p # ps) k v =
     (if listed_before k (fst p) then (k, v) # p # ps else p # insert_property ps k v)"

definition CreateDataProperty ::
  "(string \<times> json) list \<Rightarrow> string \<Rightarrow> json \<Rightarrow> (string \<times> json) list" where
  "CreateDataProperty ps k v =
     (if k \<in> fst ` set ps then map (\<lambda>p. if fst p = k then (k, v) else p) ps
      else insert_property ps k v)"

text \<open>
  The parser of values, of the elements of an array after its opening bracket and of the
  members of an object after its opening brace. Each returns the value and the rest of
  the text. The argument after \<open>toNumber\<close> bounds the nesting of the calls, and
  \<open>JSON_parse_text\<close> passes the length of the text plus one: entering an array or an
  object takes two calls and reads its two brackets, a further element or member takes one
  call and reads a comma and a value.
\<close>

fun JSONValue :: "(string \<Rightarrow> json option) \<Rightarrow> nat \<Rightarrow> string \<Rightarrow> (json \<times> string) option"
  and JSONElements ::
    "(string \<Rightarrow> json option) \<Rightarrow> nat \<Rightarrow> json list \<Rightarrow> string \<Rightarrow> (json \<times> string) option"
  and JSONMembers ::
    "(string \<Rightarrow> json option) \<Rightarrow> nat \<Rightarrow> (string \<times> json) list \<Rightarrow> string \<Rightarrow> (json \<times> string) option"
where
  "JSONValue toNumber 0 text = None"
| "JSONValue toNumber (Suc fuel) text =
     (case dropWhile whitespace text of
        [] \<Rightarrow> None
      | c # cs \<Rightarrow>
          if c = CHR ''['' then
            (case dropWhile whitespace cs of
               [] \<Rightarrow> None
             | d # ds \<Rightarrow> if d = CHR '']'' then Some (JArr [], ds)
                         else JSONElements toNumber fuel [] cs)
          else if c = CHR ''{'' then
            (case dropWhile whitespace cs of
               [] \<Rightarrow> None
             | d # ds \<Rightarrow> if d = CHR ''}'' then Some (JObj [], ds)
                         else JSONMembers toNumber fuel [] cs)
          else if c = CHR 0x22 then
            (case JSONString cs of None \<Rightarrow> None | Some (s, rest) \<Rightarrow> Some (JStr s, rest))
          else if take 4 (c # cs) = ''null'' then Some (JNull, drop 4 (c # cs))
          else if take 4 (c # cs) = ''true'' then Some (JBool True, drop 4 (c # cs))
          else if take 5 (c # cs) = ''false'' then Some (JBool False, drop 5 (c # cs))
          else
            (case toNumber (takeWhile number_char (c # cs)) of
               None \<Rightarrow> None
             | Some v \<Rightarrow> Some (v, dropWhile number_char (c # cs))))"
| "JSONElements toNumber 0 elements text = None"
| "JSONElements toNumber (Suc fuel) elements text =
     (case JSONValue toNumber fuel text of
        None \<Rightarrow> None
      | Some (v, rest) \<Rightarrow>
          (case dropWhile whitespace rest of
             [] \<Rightarrow> None
           | c # cs \<Rightarrow>
               if c = CHR '','' then JSONElements toNumber fuel (elements @ [v]) cs
               else if c = CHR '']'' then Some (JArr (elements @ [v]), cs)
               else None))"
| "JSONMembers toNumber 0 members text = None"
| "JSONMembers toNumber (Suc fuel) members text =
     (case dropWhile whitespace text of
        [] \<Rightarrow> None
      | q # qs \<Rightarrow>
          if q = CHR 0x22 then
            (case JSONString qs of
               None \<Rightarrow> None
             | Some (k, rest) \<Rightarrow>
                 (case dropWhile whitespace rest of
                    [] \<Rightarrow> None
                  | c # cs \<Rightarrow>
                      if c = CHR '':'' then
                        (case JSONValue toNumber fuel cs of
                           None \<Rightarrow> None
                         | Some (v, rest') \<Rightarrow>
                             (case dropWhile whitespace rest' of
                                [] \<Rightarrow> None
                              | d # ds \<Rightarrow>
                                  if d = CHR '','' then
                                    JSONMembers toNumber fuel (CreateDataProperty members k v) ds
                                  else if d = CHR ''}'' then
                                    Some (JObj (CreateDataProperty members k v), ds)
                                  else None))
                      else None))
          else None)"

text \<open>\<^verbatim>\<open>JSON.parse\<close>: one value, then white space only. \<open>None\<close> is the SyntaxError.\<close>

definition JSON_parse_text :: "(string \<Rightarrow> json option) \<Rightarrow> string \<Rightarrow> json option" where
  "JSON_parse_text toNumber text =
     (case JSONValue toNumber (Suc (length text)) text of
        None \<Rightarrow> None
      | Some (v, rest) \<Rightarrow> if dropWhile whitespace rest = [] then Some v else None)"


section \<open>Notions of the specification\<close>

text \<open>
  An identifier that the merge compares by value: \<^verbatim>\<open>undefined\<close> (no \<^verbatim>\<open>objectid\<close>),
  \<^verbatim>\<open>null\<close>, a boolean, a number or a string. The \<^verbatim>\<open>Entry\<close> interface declares
  \<^verbatim>\<open>objectid: number\<close>. An array or an object is compared by identity.
\<close>

fun compared_by_value :: "json option \<Rightarrow> bool" where
  "compared_by_value (Some (JArr xs)) = False"
| "compared_by_value (Some (JObj ps)) = False"
| "compared_by_value k = True"

text \<open>
  Position \<open>j\<close> of a record sequence is a first occurrence when no record at an earlier
  position has the same identifier.
\<close>

definition first_occurrence :: "json list \<Rightarrow> nat \<Rightarrow> bool" where
  "first_occurrence entries j \<longleftrightarrow>
     \<not> list_ex (\<lambda>i. SameValueZero (objectid (entries ! i)) (objectid (entries ! j))) [0..<j]"

text \<open>
  The attribute payload of a feature, when it has one: the feature is not \<^verbatim>\<open>null\<close> and
  its \<^verbatim>\<open>attributes\<close> is a truthy value.
\<close>

definition payload :: "json \<Rightarrow> json option" where
  "payload feature =
     (if feature = JNull then None
      else case property ''attributes'' feature of
             None \<Rightarrow> None
           | Some a \<Rightarrow> if Boolean a then Some a else None)"






section \<open>A sample run\<close>

text \<open>
  The scenario of the specification: \<^verbatim>\<open>a.json\<close> and \<^verbatim>\<open>b.json\<close> both hold a record
  with \<^verbatim>\<open>objectid\<close> 1. Beside them, a file that is not JSON and a file whose two records
  have no \<^verbatim>\<open>objectid\<close>.
\<close>

definition record_1X :: json where
  "record_1X = JObj [(''objectid'', JNum 1), (''lokalita'', JStr ''X'')]"

definition record_1Y :: json where
  "record_1Y = JObj [(''objectid'', JNum 1), (''lokalita'', JStr ''Y'')]"

definition record_2Z :: json where
  "record_2Z = JObj [(''objectid'', JNum 2), (''lokalita'', JStr ''Z'')]"

definition record_P :: json where
  "record_P = JObj [(''lokalita'', JStr ''P'')]"

definition record_Q :: json where
  "record_Q = JObj [(''lokalita'', JStr ''Q'')]"

definition feature :: "json \<Rightarrow> json" where
  "feature attributes = JObj [(''attributes'', attributes)]"

definition document :: "json list \<Rightarrow> json" where
  "document attributes = JObj [(''features'', JArr (map feature attributes))]"

definition sample_runtime :: runtime where
  \<open>sample_runtime =
     \<lparr>JSON_parse = (\<lambda>content.
          if content = ''{"features":[{"attributes":{"objectid":1,"lokalita":"X"}}]}''
          then Some (document [record_1X])
          else if content = ''{"features":[{"attributes":{"objectid":1,"lokalita":"Y"}},{"attributes":{"objectid":2,"lokalita":"Z"}}]}''
          then Some (document [record_1Y, record_2Z])
          else if content = ''{"features":[{"attributes":{"lokalita":"P"}},{"attributes":{"lokalita":"Q"}}]}''
          then Some (document [record_P, record_Q])
          else None),
      JSON_stringify = (\<lambda>entries. if entries = [] then ''[]'' else ''[ ... ]''),
      Papa_unparse = (\<lambda>entries. if entries = [] then Inr [] else Inr ''...''),
      path_dirname = (\<lambda>file. if file = ''./output/geology-sk.csv'' then ''./output'' else ''.''),
      glob_matches = (\<lambda>pattern. Inr (Some [''input/a.json'', ''input/b.json''])),
      fsp_readFile = (\<lambda>filename.
          if filename = ''input/a.json''
          then Inr ''{"features":[{"attributes":{"objectid":1,"lokalita":"X"}}]}''
          else if filename = ''input/b.json''
          then Inr ''{"features":[{"attributes":{"objectid":1,"lokalita":"Y"}},{"attributes":{"objectid":2,"lokalita":"Z"}}]}''
          else if filename = ''input/c.json''
          then Inr ''<html>not found</html>''
          else if filename = ''input/d.json''
          then Inr ''{"features":[{"attributes":{"lokalita":"P"}},{"attributes":{"lokalita":"Q"}}]}''
          else Inl ''ENOENT''),
      fsp_mkdir = (\<lambda>directory. None),
      fsp_writeFile = (\<lambda>file data. None)\<rparr>\<close>

text \<open>The same world with an input directory in which the glob matches nothing.\<close>

definition empty_runtime :: runtime where
  "empty_runtime = sample_runtime\<lparr>glob_matches := (\<lambda>pattern. Inr (Some []))\<rparr>"

text \<open>
  A runtime whose \<^verbatim>\<open>JSON.stringify\<close> and \<^verbatim>\<open>JSON.parse\<close> are the functions of the section
  on JSON text, with the number conversions given for the numbers of the sample only.
\<close>

definition sample_toString :: "rat \<Rightarrow> string" where
  "sample_toString n = (if n = 1 then ''1'' else if n = 2 then ''2'' else ''0'')"

definition sample_toNumber :: "string \<Rightarrow> json option" where
  "sample_toNumber literal =
     (if literal = ''0'' then Some (JNum 0)
      else if literal = ''1'' then Some (JNum 1)
      else if literal = ''2'' then Some (JNum 2)
      else if literal = ''1e400'' then Some (JInfinity False)
      else None)"

definition json_runtime :: runtime where
  "json_runtime =
     sample_runtime
       \<lparr>JSON_parse := JSON_parse_text sample_toNumber,
        JSON_stringify := (\<lambda>entries. JSON_stringify_text sample_toString (JArr entries))\<rparr>"

section \<open>Facts about \<^verbatim>\<open>Promise.all\<close>\<close>

lemma those_map_Some: "those (map Some vs) = Some vs"
  by (induction vs) simp_all

lemma settle_fulfilled:
  "length slots = length vs \<Longrightarrow>
   \<exists>slots'. settle (map Inr vs) schedule slots = Inr slots' \<and> length slots' = length vs \<and>
     (\<forall>i<length vs. slots' ! i = (if i \<in> set schedule then Some (vs ! i) else slots ! i))"
proof (induction schedule arbitrary: slots)
  case Nil
  then show ?case by simp
next
  case (Cons j later)
  show ?case
  proof (cases "j < length vs")
    case True
    have len: "length (slots[j := Some (vs ! j)]) = length vs"
      using Cons.prems by simp
    from Cons.IH [OF len] obtain slots' where
      s: "settle (map Inr vs) later (slots[j := Some (vs ! j)]) = Inr slots'"
      and l: "length slots' = length vs"
      and n: "\<forall>i<length vs. slots' ! i =
                (if i \<in> set later then Some (vs ! i) else slots[j := Some (vs ! j)] ! i)"
      by blast
    have "\<forall>i<length vs. slots' ! i = (if i \<in> set (j # later) then Some (vs ! i) else slots ! i)"
      using n Cons.prems by (auto simp: nth_list_update)
    with s l True show ?thesis by simp
  next
    case False
    from Cons.IH [OF Cons.prems] obtain slots' where
      s: "settle (map Inr vs) later slots = Inr slots'"
      and l: "length slots' = length vs"
      and n: "\<forall>i<length vs. slots' ! i = (if i \<in> set later then Some (vs ! i) else slots ! i)"
      by blast
    have "\<forall>i<length vs. slots' ! i = (if i \<in> set (j # later) then Some (vs ! i) else slots ! i)"
      using n False by auto
    with s l False show ?thesis by simp
  qed
qed

lemma Promise_all_fulfilled:
  assumes "valid_schedule (length vs) schedule"
  shows "Promise_all schedule (map Inr vs) = Fulfilled vs"
proof -
  obtain slots' where
    s: "settle (map Inr vs) schedule (replicate (length vs) None) = Inr slots'"
    and l: "length slots' = length vs"
    and n: "\<forall>i<length vs. slots' ! i =
              (if i \<in> set schedule then Some (vs ! i) else replicate (length vs) None ! i)"
    using settle_fulfilled [of "replicate (length vs) None" vs schedule] by auto
  have "slots' = map Some vs"
    using l n assms by (intro nth_equalityI) (auto simp: valid_schedule_def)
  with s show ?thesis
    by (simp add: Promise_all_def those_map_Some)
qed

lemma settle_rejected:
  "i \<in> set schedule \<Longrightarrow> i < length outcomes \<Longrightarrow> outcomes ! i = Inl e \<Longrightarrow>
   \<exists>reason. settle outcomes schedule slots = Inl reason \<and> Inl reason \<in> set outcomes"
proof (induction schedule arbitrary: slots)
  case Nil
  then show ?case by simp
next
  case (Cons j later)
  show ?case
  proof (cases "j < length outcomes")
    case inrange: True
    show ?thesis
    proof (cases "outcomes ! j")
      case (Inl reason)
      with inrange show ?thesis by (auto simp: in_set_conv_nth)
    next
      case (Inr v)
      with Cons.prems have "i \<in> set later" by auto
      from Cons.IH [OF this Cons.prems(2,3)] Inr inrange show ?thesis by simp
    qed
  next
    case False
    with Cons.prems have "i \<in> set later" by auto
    from Cons.IH [OF this Cons.prems(2,3)] False show ?thesis by simp
  qed
qed

lemma Promise_all_rejected:
  assumes "valid_schedule (length outcomes) schedule"
    and "i < length outcomes" and "outcomes ! i = Inl e"
  shows "\<exists>reason. Promise_all schedule outcomes = Rejected reason \<and> Inl reason \<in> set outcomes"
proof -
  from assms have "i \<in> set schedule" by (simp add: valid_schedule_def)
  from settle_rejected [OF this assms(2,3)] obtain reason where
    "settle outcomes schedule (replicate (length outcomes) None) = Inl reason"
    and "Inl reason \<in> set outcomes"
    by blast
  then show ?thesis
    by (simp add: Promise_all_def)
qed

lemma all_Inr_or_some_Inl:
  "(\<exists>vs. outcomes = map Inr vs) \<or> (\<exists>i e. i < length outcomes \<and> outcomes ! i = Inl e)"
proof (induction outcomes)
  case Nil
  then show ?case by simp
next
  case (Cons x xs)
  show ?case
  proof (cases x)
    case (Inl e)
    then have "0 < length (x # xs) \<and> (x # xs) ! 0 = Inl e" by simp
    then show ?thesis by blast
  next
    case (Inr v)
    from Cons.IH show ?thesis
    proof
      assume "\<exists>vs. xs = map Inr vs"
      then obtain vs where "xs = map Inr vs" ..
      with Inr have "x # xs = map Inr (v # vs)" by simp
      then have "\<exists>ws. x # xs = map Inr ws" by (rule exI)
      then show ?thesis by (rule disjI1)
    next
      assume "\<exists>i e. i < length xs \<and> xs ! i = Inl e"
      then obtain i e where "i < length xs" "xs ! i = Inl e" by blast
      then have "Suc i < length (x # xs) \<and> (x # xs) ! Suc i = Inl e" by simp
      then show ?thesis by blast
    qed
  qed
qed

lemma Promise_all_fulfilled_iff:
  assumes "valid_schedule (length outcomes) schedule"
  shows "Promise_all schedule outcomes = Fulfilled vs \<longleftrightarrow> outcomes = map Inr vs"
proof
  assume f: "Promise_all schedule outcomes = Fulfilled vs"
  from all_Inr_or_some_Inl [of outcomes] show "outcomes = map Inr vs"
  proof
    assume "\<exists>ws. outcomes = map Inr ws"
    then obtain ws where ws: "outcomes = map Inr ws" ..
    with assms have "Promise_all schedule outcomes = Fulfilled ws"
      using Promise_all_fulfilled [of ws schedule] by simp
    with f ws show ?thesis by simp
  next
    assume "\<exists>i e. i < length outcomes \<and> outcomes ! i = Inl e"
    then obtain i e where "i < length outcomes" "outcomes ! i = Inl e" by blast
    from Promise_all_rejected [OF assms this] f show ?thesis by auto
  qed
next
  assume "outcomes = map Inr vs"
  with assms show "Promise_all schedule outcomes = Fulfilled vs"
    using Promise_all_fulfilled [of vs schedule] by simp
qed

lemma Promise_all_not_pending:
  assumes "valid_schedule (length outcomes) schedule"
  shows "Promise_all schedule outcomes \<noteq> Pending"
proof -
  from all_Inr_or_some_Inl [of outcomes] show ?thesis
  proof
    assume "\<exists>ws. outcomes = map Inr ws"
    then obtain ws where ws: "outcomes = map Inr ws" ..
    with assms have "Promise_all schedule outcomes = Fulfilled ws"
      using Promise_all_fulfilled [of ws schedule] by simp
    then show ?thesis by simp
  next
    assume "\<exists>i e. i < length outcomes \<and> outcomes ! i = Inl e"
    then obtain i e where "i < length outcomes" "outcomes ! i = Inl e" by blast
    from Promise_all_rejected [OF assms this] show ?thesis by auto
  qed
qed

section \<open>Facts about \<^verbatim>\<open>uniqBy\<close>\<close>

lemma SameValueZero_iff: "SameValueZero a b \<longleftrightarrow> a = b \<and> compared_by_value a"
  by (induction a b rule: SameValueZero.induct) auto

lemma SameValueZero_trans:
  "SameValueZero a b \<Longrightarrow> SameValueZero b c \<Longrightarrow> SameValueZero a c"
  by (auto simp: SameValueZero_iff)



lemma upt_0_Suc_shift: "[0..<Suc n] = 0 # map Suc [0..<n]"
  by (simp add: upt_conv_Cons map_Suc_upt del: upt_Suc)

lemma list_ex_upt_Suc:
  "list_ex Q [0..<Suc j] \<longleftrightarrow> Q 0 \<or> list_ex (\<lambda>i. Q (Suc i)) [0..<j]"
  by (simp only: upt_0_Suc_shift list_ex_iff list.set list.set_map) blast

lemma baseUniq_positions:
  "baseUniq it xs seen =
     map ((!) xs)
       (filter (\<lambda>j. \<not> list_ex (\<lambda>s. SameValueZero s (it (xs ! j))) seen \<and>
                    \<not> list_ex (\<lambda>i. SameValueZero (it (xs ! i)) (it (xs ! j))) [0..<j])
          [0..<length xs])"
proof (induction xs arbitrary: seen)
  case Nil
  then show ?case by simp
next
  case (Cons x xs)
  let ?P = "\<lambda>seen ys j. \<not> list_ex (\<lambda>s. SameValueZero s (it (ys ! j))) seen \<and>
                        \<not> list_ex (\<lambda>i. SameValueZero (it (ys ! i)) (it (ys ! j))) [0..<j]"
  let ?S = "\<lambda>j. \<not> list_ex (\<lambda>s. SameValueZero s (it (xs ! j))) seen \<and>
                 \<not> list_ex (\<lambda>i. SameValueZero (it ((x # xs) ! i)) (it (xs ! j))) [0..<Suc j]"
  have split: "filter (?P seen (x # xs)) [0..<length (x # xs)] =
      (if ?P seen (x # xs) 0 then [0] else []) @
      map Suc (filter (\<lambda>j. ?P seen (x # xs) (Suc j)) [0..<length xs])"
    by (simp only: length_Cons upt_0_Suc_shift filter.simps filter_map comp_def) simp
  have nth_shift: "map ((!) (x # xs)) (map Suc js) = map ((!) xs) js" for js
    by simp
  have head: "?P seen (x # xs) 0 \<longleftrightarrow> \<not> list_ex (\<lambda>s. SameValueZero s (it x)) seen"
    by simp
  show ?case
  proof (cases "list_ex (\<lambda>s. SameValueZero s (it x)) seen")
    case dropped: True
    then obtain s0 where s0: "s0 \<in> set seen" "SameValueZero s0 (it x)"
      by (auto simp: list_ex_iff)
    have same: "?S j \<longleftrightarrow> ?P seen xs j" for j
    proof -
      have "SameValueZero (it x) (it (xs ! j)) \<Longrightarrow> SameValueZero s0 (it (xs ! j))"
        using s0(2) by (rule SameValueZero_trans)
      with s0(1) show ?thesis
        unfolding list_ex_upt_Suc by (auto simp: list_ex_iff simp del: upt_Suc)
    qed
    have "baseUniq it (x # xs) seen = baseUniq it xs seen"
      using dropped by simp
    also have "\<dots> = map ((!) xs) (filter (?P seen xs) [0..<length xs])"
      by (rule Cons.IH)
    also have "\<dots> = map ((!) (x # xs)) (filter (?P seen (x # xs)) [0..<length (x # xs)])"
      unfolding split using dropped by (simp add: same o_def del: upt_Suc)
    finally show ?thesis .
  next
    case kept: False
    have same: "?S j \<longleftrightarrow> ?P (seen @ [it x]) xs j" for j
      unfolding list_ex_upt_Suc by (auto simp: list_ex_iff simp del: upt_Suc)
    have "baseUniq it (x # xs) seen = x # baseUniq it xs (seen @ [it x])"
      using kept by simp
    also have "baseUniq it xs (seen @ [it x]) =
        map ((!) xs) (filter (?P (seen @ [it x]) xs) [0..<length xs])"
      by (rule Cons.IH)
    also have "x # \<dots> = map ((!) (x # xs)) (filter (?P seen (x # xs)) [0..<length (x # xs)])"
      unfolding split using kept by (simp add: same o_def del: upt_Suc)
    finally show ?thesis .
  qed
qed

lemma uniqBy_positions:
  "uniqBy entries objectid = map ((!) entries) (filter (first_occurrence entries) [0..<length entries])"
  unfolding uniqBy_def baseUniq_positions [of objectid entries "[]"]
  by (simp add: first_occurrence_def [abs_def])

lemma baseUniq_no_shared_key:
  "sorted_wrt (\<lambda>a b. \<not> SameValueZero (it a) (it b)) (baseUniq it xs seen) \<and>
   (\<forall>y\<in>set (baseUniq it xs seen). \<forall>s\<in>set seen. \<not> SameValueZero s (it y))"
proof (induction xs arbitrary: seen)
  case Nil
  then show ?case by simp
next
  case (Cons x xs)
  show ?case
  proof (cases "list_ex (\<lambda>s. SameValueZero s (it x)) seen")
    case True
    with Cons.IH [of seen] show ?thesis by simp
  next
    case False
    with Cons.IH [of "seen @ [it x]"] show ?thesis
      by (auto simp: list_ex_iff)
  qed
qed

lemma baseUniq_length:
  "length (baseUniq it xs seen) =
     card ({k \<in> it ` set xs. compared_by_value k} - set seen) +
     length (filter (\<lambda>x. \<not> compared_by_value (it x)) xs)"
proof (induction xs arbitrary: seen)
  case Nil
  then show ?case by simp
next
  case (Cons x xs)
  let ?K = "{k \<in> it ` set xs. compared_by_value k}"
  have fin: "finite ?K" by simp
  show ?case
  proof (cases "list_ex (\<lambda>s. SameValueZero s (it x)) seen")
    case True
    then have mem: "it x \<in> set seen" and val: "compared_by_value (it x)"
      by (auto simp: list_ex_iff SameValueZero_iff)
    have "{k \<in> it ` set (x # xs). compared_by_value k} - set seen = ?K - set seen"
      using mem by auto
    with True val Cons.IH [of seen] show ?thesis by simp
  next
    case False
    show ?thesis
    proof (cases "compared_by_value (it x)")
      case val: True
      with False have notin: "it x \<notin> set seen"
        by (auto simp: list_ex_iff SameValueZero_iff)
      have eq: "{k \<in> it ` set (x # xs). compared_by_value k} - set seen =
                insert (it x) (?K - set (seen @ [it x]))"
        using val notin by auto
      have "card (insert (it x) (?K - set (seen @ [it x]))) = Suc (card (?K - set (seen @ [it x])))"
        by (rule card_insert_disjoint) (use fin in auto)
      with False val eq Cons.IH [of "seen @ [it x]"] show ?thesis by simp
    next
      case noval: False
      have "{k \<in> it ` set (x # xs). compared_by_value k} - set seen = ?K - set (seen @ [it x])"
        using noval by auto
      with False noval Cons.IH [of "seen @ [it x]"] show ?thesis by simp
    qed
  qed
qed

lemma baseUniq_undefined:
  "filter (\<lambda>x. it x = None) (baseUniq it xs seen) =
     (if None \<in> set seen then [] else take 1 (filter (\<lambda>x. it x = None) xs))"
proof (induction xs arbitrary: seen)
  case Nil
  then show ?case by simp
next
  case (Cons x xs)
  show ?case
  proof (cases "list_ex (\<lambda>s. SameValueZero s (it x)) seen")
    case True
    then have "it x \<in> set seen"
      by (auto simp: list_ex_iff SameValueZero_iff)
    with True Cons.IH [of seen] show ?thesis by auto
  next
    case False
    then have "it x = None \<Longrightarrow> None \<notin> set seen"
      by (auto simp: list_ex_iff SameValueZero_iff)
    with False Cons.IH [of "seen @ [it x]"] show ?thesis by auto
  qed
qed

section \<open>Facts about the merge engine\<close>

lemma processEntryFiles_fulfilled:
  assumes "valid_schedule (length filenames) schedule"
    and "map (fileTask rt) filenames = map Inr entriesPerFiles"
  shows "processEntryFiles rt schedule filenames =
           Fulfilled (uniqBy (concat entriesPerFiles) objectid)"
proof -
  have "length entriesPerFiles = length filenames"
    using assms(2) by (metis length_map)
  with assms(1) have "valid_schedule (length entriesPerFiles) schedule" by simp
  then have "Promise_all schedule (map Inr entriesPerFiles) = Fulfilled entriesPerFiles"
    by (rule Promise_all_fulfilled)
  with assms(2) show ?thesis
    by (simp add: processEntryFiles_def)
qed

lemma processEntryFiles_fulfilled_iff:
  assumes "valid_schedule (length filenames) schedule"
  shows "processEntryFiles rt schedule filenames = Fulfilled merged \<longleftrightarrow>
           (\<exists>entriesPerFiles. map (fileTask rt) filenames = map Inr entriesPerFiles \<and>
              merged = uniqBy (concat entriesPerFiles) objectid)"
proof -
  have v: "valid_schedule (length (map (fileTask rt) filenames)) schedule"
    using assms by simp
  show ?thesis
  proof
    assume "processEntryFiles rt schedule filenames = Fulfilled merged"
    then obtain entriesPerFiles where
      gathered: "Promise_all schedule (map (fileTask rt) filenames) = Fulfilled entriesPerFiles"
      and merged: "merged = uniqBy (concat entriesPerFiles) objectid"
      by (auto simp: processEntryFiles_def split: promise.splits)
    from gathered have "map (fileTask rt) filenames = map Inr entriesPerFiles"
      by (simp only: Promise_all_fulfilled_iff [OF v])
    with merged show "\<exists>entriesPerFiles. map (fileTask rt) filenames = map Inr entriesPerFiles \<and>
        merged = uniqBy (concat entriesPerFiles) objectid"
      by blast
  next
    assume "\<exists>entriesPerFiles. map (fileTask rt) filenames = map Inr entriesPerFiles \<and>
        merged = uniqBy (concat entriesPerFiles) objectid"
    then obtain entriesPerFiles where
      "map (fileTask rt) filenames = map Inr entriesPerFiles"
      and "merged = uniqBy (concat entriesPerFiles) objectid"
      by blast
    with processEntryFiles_fulfilled [OF assms, of rt entriesPerFiles]
    show "processEntryFiles rt schedule filenames = Fulfilled merged"
      by simp
  qed
qed

lemma processEntryFiles_not_pending:
  assumes "valid_schedule (length filenames) schedule"
  shows "processEntryFiles rt schedule filenames \<noteq> Pending"
proof -
  have v: "valid_schedule (length (map (fileTask rt) filenames)) schedule"
    using assms by simp
  from Promise_all_not_pending [OF v] show ?thesis
    by (simp add: processEntryFiles_def split: promise.splits)
qed

lemmas sample_defs = sample_runtime_def document_def feature_def record_1X_def record_1Y_def
  record_2Z_def record_P_def record_Q_def

lemmas fileTask_defs = fileTask_def loadFile_def extractEntries_def attributesOf_def

lemma sample_a: "fileTask sample_runtime ''input/a.json'' = Inr [record_1X]"
  by (simp add: fileTask_defs sample_defs)

lemma sample_b: "fileTask sample_runtime ''input/b.json'' = Inr [record_1Y, record_2Z]"
  by (simp add: fileTask_defs sample_defs)

lemma sample_c: "fileTask sample_runtime ''input/c.json'' = Inr []"
  by (simp add: fileTask_defs sample_defs)

lemma sample_d: "fileTask sample_runtime ''input/d.json'' = Inr [record_P, record_Q]"
  by (simp add: fileTask_defs sample_defs)

lemma sample_objectids:
  "objectid record_1X = Some (JNum 1)" "objectid record_1Y = Some (JNum 1)"
  "objectid record_2Z = Some (JNum 2)" "objectid record_P = None" "objectid record_Q = None"
  by (simp_all add: objectid_def sample_defs)

lemma processEntryFiles_skip_empty:
  assumes "fileTask rt filename = Inr []"
    and "valid_schedule (length (before @ filename # after)) schedule"
    and "valid_schedule (length (before @ after)) schedule'"
  shows "processEntryFiles rt schedule (before @ filename # after) = Fulfilled merged \<longleftrightarrow>
         processEntryFiles rt schedule' (before @ after) = Fulfilled merged"
proof
  assume "processEntryFiles rt schedule (before @ filename # after) = Fulfilled merged"
  then obtain per where
    per: "map (fileTask rt) (before @ filename # after) = map Inr per"
    and merged: "merged = uniqBy (concat per) objectid"
    unfolding processEntryFiles_fulfilled_iff [OF assms(2)] by blast
  from per have "map (fileTask rt) before @ Inr [] # map (fileTask rt) after = map Inr per"
    using assms(1) by simp
  then have "\<exists>p1 rest. per = p1 @ rest \<and> map (fileTask rt) before = map Inr p1 \<and>
      Inr [] # map (fileTask rt) after = map Inr rest"
    by (simp only: append_eq_map_conv)
  then obtain p1 rest where
    split1: "per = p1 @ rest" and b: "map (fileTask rt) before = map Inr p1"
    and r: "Inr [] # map (fileTask rt) after = map Inr rest"
    by (elim exE conjE)
  from r obtain p2 where rest: "rest = [] # p2" and a: "map (fileTask rt) after = map Inr p2"
    by (auto simp: Cons_eq_map_conv)
  have "map (fileTask rt) (before @ after) = map Inr (p1 @ p2)"
    using a b by simp
  moreover have "merged = uniqBy (concat (p1 @ p2)) objectid"
    using merged split1 rest by simp
  ultimately show "processEntryFiles rt schedule' (before @ after) = Fulfilled merged"
    unfolding processEntryFiles_fulfilled_iff [OF assms(3)] by blast
next
  assume "processEntryFiles rt schedule' (before @ after) = Fulfilled merged"
  then obtain per where
    per: "map (fileTask rt) (before @ after) = map Inr per"
    and merged: "merged = uniqBy (concat per) objectid"
    unfolding processEntryFiles_fulfilled_iff [OF assms(3)] by blast
  from per have "map (fileTask rt) before @ map (fileTask rt) after = map Inr per"
    by simp
  then have "\<exists>p1 p2. per = p1 @ p2 \<and> map (fileTask rt) before = map Inr p1 \<and>
      map (fileTask rt) after = map Inr p2"
    by (simp only: append_eq_map_conv)
  then obtain p1 p2 where
    split1: "per = p1 @ p2" and b: "map (fileTask rt) before = map Inr p1"
    and a: "map (fileTask rt) after = map Inr p2"
    by (elim exE conjE)
  have "map (fileTask rt) (before @ filename # after) = map Inr (p1 @ [] # p2)"
    using a b assms(1) by simp
  moreover have "merged = uniqBy (concat (p1 @ [] # p2)) objectid"
    using merged split1 by simp
  ultimately show "processEntryFiles rt schedule (before @ filename # after) = Fulfilled merged"
    unfolding processEntryFiles_fulfilled_iff [OF assms(2)] by blast
qed

lemma processEntryFiles_rejected_iff:
  assumes "valid_schedule (length filenames) schedule"
  shows "(\<exists>reason. processEntryFiles rt schedule filenames = Rejected reason) \<longleftrightarrow>
         \<not> (\<exists>merged. processEntryFiles rt schedule filenames = Fulfilled merged)"
  using processEntryFiles_not_pending [OF assms, of rt]
  by (cases "processEntryFiles rt schedule filenames") simp_all

section \<open>Facts about the extractor and the exporter\<close>

lemma filter_Boolean_attributesOf:
  "filter Boolean (map attributesOf features) = List.map_filter payload features"
proof (induction features)
  case Nil
  then show ?case by (simp add: List.map_filter_simps)
next
  case (Cons f fs)
  have "(if Boolean (attributesOf f) then Some (attributesOf f) else None) = payload f"
  proof (cases f)
    case (JObj ps)
    show ?thesis
    proof (cases "map_of ps ''attributes''")
      case None
      with JObj show ?thesis by (simp add: attributesOf_def payload_def)
    next
      case (Some a)
      with JObj show ?thesis by (cases a) (simp_all add: attributesOf_def payload_def)
    qed
  qed (simp_all add: attributesOf_def payload_def)
  with Cons.IH show ?case
    by (cases "payload f") (auto simp: List.map_filter_simps split: if_splits)
qed

lemma saveEntries_unrecognised_format:
  assumes "fsp_mkdir rt (path_dirname rt (outputFileOf options)) = None"
    and "formatOf options \<noteq> ''json''" and "formatOf options \<noteq> ''csv''"
    and "formatOf options \<notin> set Object_prototype_names"
  shows "saveEntries rt entries options =
           ([LogCreatingDirectory (path_dirname rt (outputFileOf options)),
             MkdirRecursive (path_dirname rt (outputFileOf options)),
             LogWriting (length entries) (outputFileOf options)],
            Rejected (InvalidExportFormat (formatOf options)))"
  using assms by (simp add: saveEntries_def formatSerializers_def Let_def)

lemma extractEntries_null_document: "extractEntries JNull = Inl TypeError"
  by (simp add: extractEntries_def)

section \<open>Facts about JSON text\<close>

lemma hex_value_hex_digit: "k < 16 \<Longrightarrow> hex_value (hex_digit k) = Some k"
  by (auto simp: hex_value_def hex_digit_def Let_def)

lemma JSONString_escape:
  "JSONString (escape c @ text) = map_option (\<lambda>(s, r). (c # s, r)) (JSONString text)"
proof -
  consider (special) "c \<in> {CHR 0x22, CHR 0x5C, CHR 0x08, CHR 0x09, CHR 0x0A, CHR 0x0C, CHR 0x0D}"
    | (control) "c \<notin> {CHR 0x22, CHR 0x5C, CHR 0x08, CHR 0x09, CHR 0x0A, CHR 0x0C, CHR 0x0D}"
        "(of_char c :: nat) < 32"
    | (plain) "c \<notin> {CHR 0x22, CHR 0x5C, CHR 0x08, CHR 0x09, CHR 0x0A, CHR 0x0C, CHR 0x0D}"
        "\<not> (of_char c :: nat) < 32"
    by blast
  then show ?thesis
  proof cases
    case special
    then show ?thesis
      by (auto simp: escape_def unescape_def)
  next
    case control
    let ?n = "of_char c :: nat"
    have hi: "?n div 16 < 16" and lo: "?n mod 16 < 16" using control(2) by simp_all
    have code: "((0 * 16 + 0) * 16 + ?n div 16) * 16 + ?n mod 16 = ?n" by simp
    have esc: "escape c = [CHR 0x5C, CHR ''u'', CHR ''0'', CHR ''0'',
        hex_digit (?n div 16), hex_digit (?n mod 16)]"
      using control by (simp add: escape_def)
    have zero: "hex_value CHR ''0'' = Some 0" by (simp add: hex_value_def)
    show ?thesis
      unfolding esc using control(2)
      by (simp add: zero hex_value_hex_digit [OF hi] hex_value_hex_digit [OF lo] Let_def)
  next
    case plain
    then show ?thesis
      by (simp add: escape_def)
  qed
qed

lemma JSONString_QuoteJSONString_body:
  "JSONString (concat (map escape s) @ CHR 0x22 # rest) = Some (s, rest)"
  by (induction s) (simp_all add: JSONString_escape)

lemma QuoteJSONString_parsed:
  "\<exists>body. QuoteJSONString s @ rest = CHR 0x22 # body \<and> JSONString body = Some (s, rest)"
  using JSONString_QuoteJSONString_body [of s rest] by (simp add: QuoteJSONString_def)



























lemma JSON_stringify_text_empty: "JSON_stringify_text toString (JArr []) = ''[]''"
  by (simp add: JSON_stringify_text_def)


lemma infinite_objectid_is_extracted:
  \<open>JSON_parse json_runtime ''{"features":[{"attributes":{"objectid":1e400}}]}'' =
     Some (document [JObj [(''objectid'', JInfinity False)]]) \<and>
   extractEntries (document [JObj [(''objectid'', JInfinity False)]]) =
     Inr [JObj [(''objectid'', JInfinity False)]]\<close>
  by code_simp

section \<open>Claims\<close>

text \<open>
  Claim C1. When every file loads and extracts, the merge engine returns, for any order in
  which the per-file tasks complete, the concatenation of the per-file record lists in
  file order, reduced to its first occurrences: the record at a position is kept exactly
  when no record at an earlier position has the same \<^verbatim>\<open>objectid\<close>. So of the records
  that share an \<^verbatim>\<open>objectid\<close> the earliest is kept and the later ones are dropped, and no
  two records of the output have the same \<^verbatim>\<open>objectid\<close>. ``The same'' is the comparison
  the merge uses (SameValueZero); for an identifier that is compared by value, as every
  number is, it is equality.
\<close>

theorem merge_keeps_first_occurrence:
  assumes "valid_schedule (length filenames) schedule"
    and "map (fileTask rt) filenames = map Inr entriesPerFiles"
  shows "\<exists>merged.
           processEntryFiles rt schedule filenames = Fulfilled merged \<and>
           merged = map ((!) (concat entriesPerFiles))
                      (filter (first_occurrence (concat entriesPerFiles))
                         [0..<length (concat entriesPerFiles)]) \<and>
           (\<forall>i j. i < j \<and> j < length merged \<longrightarrow>
              \<not> SameValueZero (objectid (merged ! i)) (objectid (merged ! j))) \<and>
           (\<forall>i j. i < j \<and> j < length merged \<and> compared_by_value (objectid (merged ! i)) \<longrightarrow>
              objectid (merged ! i) \<noteq> objectid (merged ! j))"
proof -
  let ?all = "concat entriesPerFiles"
  let ?merged = "uniqBy ?all objectid"
  have run: "processEntryFiles rt schedule filenames = Fulfilled ?merged"
    using assms by (rule processEntryFiles_fulfilled)
  have positions: "?merged = map ((!) ?all) (filter (first_occurrence ?all) [0..<length ?all])"
    by (rule uniqBy_positions)
  have "sorted_wrt (\<lambda>a b. \<not> SameValueZero (objectid a) (objectid b)) ?merged"
    unfolding uniqBy_def using baseUniq_no_shared_key [of objectid ?all "[]"] by simp
  then have apart: "\<forall>i j. i < j \<and> j < length ?merged \<longrightarrow>
      \<not> SameValueZero (objectid (?merged ! i)) (objectid (?merged ! j))"
    by (simp add: sorted_wrt_iff_nth_less)
  then have "\<forall>i j. i < j \<and> j < length ?merged \<and> compared_by_value (objectid (?merged ! i)) \<longrightarrow>
      objectid (?merged ! i) \<noteq> objectid (?merged ! j)"
    by (auto simp: SameValueZero_iff)
  with run positions apart show ?thesis by blast
qed

theorem merge_keeps_first_occurrence_witness:
  "valid_schedule (length [''input/a.json'', ''input/b.json'']) [1, 0] \<and>
   map (fileTask sample_runtime) [''input/a.json'', ''input/b.json''] =
     map Inr [[record_1X], [record_1Y, record_2Z]] \<and>
   processEntryFiles sample_runtime [1, 0] [''input/a.json'', ''input/b.json''] =
     Fulfilled [record_1X, record_2Z]"
proof -
  have v: "valid_schedule (length [''input/a.json'', ''input/b.json'']) [1, 0]"
    by (auto simp: valid_schedule_def)
  have t: "map (fileTask sample_runtime) [''input/a.json'', ''input/b.json''] =
      map Inr [[record_1X], [record_1Y, record_2Z]]"
    by (simp add: sample_a sample_b)
  have "map ((!) (concat [[record_1X], [record_1Y, record_2Z]]))
      (filter (first_occurrence (concat [[record_1X], [record_1Y, record_2Z]]))
        [0..<length (concat [[record_1X], [record_1Y, record_2Z]])]) = [record_1X, record_2Z]"
    by (simp add: first_occurrence_def sample_objectids upt_rec)
  with merge_keeps_first_occurrence [OF v t] v t show ?thesis by auto
qed

text \<open>
  Claim C2. The number of records the merge engine returns is the number of distinct
  \<^verbatim>\<open>objectid\<close> values among all extracted records: one for each identifier that is
  compared by value (a missing \<^verbatim>\<open>objectid\<close> is the value \<^verbatim>\<open>undefined\<close>), and one for
  each array or object, which is a value of its own. When every identifier is compared by
  value, as numbers are, this is the number of different identifiers.
\<close>

theorem merge_count_is_number_of_identifiers:
  assumes "valid_schedule (length filenames) schedule"
    and "map (fileTask rt) filenames = map Inr entriesPerFiles"
  shows "\<exists>merged.
           processEntryFiles rt schedule filenames = Fulfilled merged \<and>
           length merged =
             card {k \<in> objectid ` set (concat entriesPerFiles). compared_by_value k} +
             length (filter (\<lambda>entry. \<not> compared_by_value (objectid entry))
                       (concat entriesPerFiles)) \<and>
           ((\<forall>entry \<in> set (concat entriesPerFiles). compared_by_value (objectid entry)) \<longrightarrow>
              length merged = card (objectid ` set (concat entriesPerFiles)))"
proof -
  let ?all = "concat entriesPerFiles"
  let ?merged = "uniqBy ?all objectid"
  have run: "processEntryFiles rt schedule filenames = Fulfilled ?merged"
    using assms by (rule processEntryFiles_fulfilled)
  have count: "length ?merged =
      card {k \<in> objectid ` set ?all. compared_by_value k} +
      length (filter (\<lambda>entry. \<not> compared_by_value (objectid entry)) ?all)"
    unfolding uniqBy_def using baseUniq_length [of objectid ?all "[]"] by simp
  have "length ?merged = card (objectid ` set ?all)"
    if byvalue: "\<forall>entry \<in> set ?all. compared_by_value (objectid entry)"
  proof -
    from byvalue have "{k \<in> objectid ` set ?all. compared_by_value k} = objectid ` set ?all"
      by auto
    moreover from byvalue
    have "filter (\<lambda>entry. \<not> compared_by_value (objectid entry)) ?all = []"
      by (simp add: filter_empty_conv)
    ultimately show ?thesis using count by simp
  qed
  with run count show ?thesis by blast
qed

theorem merge_count_is_number_of_identifiers_witness:
  "valid_schedule (length [''input/a.json'', ''input/b.json'']) [0, 1] \<and>
   map (fileTask sample_runtime) [''input/a.json'', ''input/b.json''] =
     map Inr [[record_1X], [record_1Y, record_2Z]] \<and>
   compared_by_value (objectid record_1X) \<and> compared_by_value (objectid record_1Y) \<and>
   compared_by_value (objectid record_2Z) \<and>
   (\<exists>merged. processEntryFiles sample_runtime [0, 1] [''input/a.json'', ''input/b.json''] =
      Fulfilled merged \<and> length merged = 2)"
proof -
  have v: "valid_schedule (length [''input/a.json'', ''input/b.json'']) [0, 1]"
    by (auto simp: valid_schedule_def)
  have t: "map (fileTask sample_runtime) [''input/a.json'', ''input/b.json''] =
      map Inr [[record_1X], [record_1Y, record_2Z]]"
    by (simp add: sample_a sample_b)
  have byvalue: "\<forall>entry \<in> set (concat [[record_1X], [record_1Y, record_2Z]]).
      compared_by_value (objectid entry)"
    by (simp add: sample_objectids)
  have "card (objectid ` set (concat [[record_1X], [record_1Y, record_2Z]])) = 2"
    by (simp add: sample_objectids)
  with merge_count_is_number_of_identifiers [OF v t] byvalue v t show ?thesis by auto
qed

text \<open>
  Claim C9. Records without an \<^verbatim>\<open>objectid\<close> field all have the key \<^verbatim>\<open>undefined\<close>:
  the records of the output that have no \<^verbatim>\<open>objectid\<close> are the first such record of the
  concatenation, if there is one, and nothing else.
\<close>

theorem records_without_objectid_collapse:
  assumes "valid_schedule (length filenames) schedule"
    and "map (fileTask rt) filenames = map Inr entriesPerFiles"
  shows "\<exists>merged.
           processEntryFiles rt schedule filenames = Fulfilled merged \<and>
           filter (\<lambda>entry. objectid entry = None) merged =
             take 1 (filter (\<lambda>entry. objectid entry = None) (concat entriesPerFiles))"
proof -
  let ?all = "concat entriesPerFiles"
  have "processEntryFiles rt schedule filenames = Fulfilled (uniqBy ?all objectid)"
    using assms by (rule processEntryFiles_fulfilled)
  moreover have "filter (\<lambda>entry. objectid entry = None) (uniqBy ?all objectid) =
      take 1 (filter (\<lambda>entry. objectid entry = None) ?all)"
    unfolding uniqBy_def using baseUniq_undefined [of objectid ?all "[]"] by simp
  ultimately show ?thesis by blast
qed

theorem records_without_objectid_collapse_witness:
  "valid_schedule (length [''input/d.json'', ''input/a.json'']) [1, 0] \<and>
   map (fileTask sample_runtime) [''input/d.json'', ''input/a.json''] =
     map Inr [[record_P, record_Q], [record_1X]] \<and>
   (\<exists>merged. processEntryFiles sample_runtime [1, 0] [''input/d.json'', ''input/a.json''] =
      Fulfilled merged \<and> filter (\<lambda>entry. objectid entry = None) merged = [record_P])"
proof -
  have v: "valid_schedule (length [''input/d.json'', ''input/a.json'']) [1, 0]"
    by (auto simp: valid_schedule_def)
  have t: "map (fileTask sample_runtime) [''input/d.json'', ''input/a.json''] =
      map Inr [[record_P, record_Q], [record_1X]]"
    by (simp add: sample_a sample_d)
  have "take 1 (filter (\<lambda>entry. objectid entry = None)
      (concat [[record_P, record_Q], [record_1X]])) = [record_P]"
    by (simp add: sample_objectids)
  with records_without_objectid_collapse [OF v t] v t show ?thesis by auto
qed

text \<open>
  Claim C8. For a fixed file list and fixed file contents the merged record sequence does
  not depend on the order in which the per-file tasks complete: a run under one
  completion order returns a sequence exactly when a run under any other returns the same
  sequence, and the lists gathered by \<^verbatim>\<open>Promise.all\<close> are those of the files in
  file-list order.
\<close>

theorem merge_independent_of_completion_order:
  assumes "valid_schedule (length filenames) schedule1"
    and "valid_schedule (length filenames) schedule2"
  shows "(processEntryFiles rt schedule1 filenames = Fulfilled merged \<longleftrightarrow>
          processEntryFiles rt schedule2 filenames = Fulfilled merged) \<and>
         (Promise_all schedule1 (map (fileTask rt) filenames) = Fulfilled entriesPerFiles \<longleftrightarrow>
          map (fileTask rt) filenames = map Inr entriesPerFiles)"
proof -
  have v: "valid_schedule (length (map (fileTask rt) filenames)) schedule1"
    using assms(1) by simp
  show ?thesis
    using processEntryFiles_fulfilled_iff [OF assms(1)] processEntryFiles_fulfilled_iff [OF assms(2)]
      Promise_all_fulfilled_iff [OF v]
    by simp
qed

theorem merge_independent_of_completion_order_witness:
  "valid_schedule (length [''input/a.json'', ''input/b.json'']) [0, 1] \<and>
   valid_schedule (length [''input/a.json'', ''input/b.json'']) [1, 0] \<and>
   processEntryFiles sample_runtime [0, 1] [''input/a.json'', ''input/b.json''] =
     Fulfilled [record_1X, record_2Z] \<and>
   processEntryFiles sample_runtime [1, 0] [''input/a.json'', ''input/b.json''] =
     Fulfilled [record_1X, record_2Z]"
proof -
  have v1: "valid_schedule (length [''input/a.json'', ''input/b.json'']) [0, 1]"
    by (auto simp: valid_schedule_def)
  have v2: "valid_schedule (length [''input/a.json'', ''input/b.json'']) [1, 0]"
    by (auto simp: valid_schedule_def)
  have run: "processEntryFiles sample_runtime [0, 1] [''input/a.json'', ''input/b.json''] =
      Fulfilled [record_1X, record_2Z]"
    by (simp add: processEntryFiles_def Promise_all_def sample_a sample_b uniqBy_def
        sample_objectids)
  with merge_independent_of_completion_order [OF v1 v2, of sample_runtime "[record_1X, record_2Z]"]
    v1 v2 show ?thesis by simp
qed

text \<open>
  Claim C4 says that the extractor returns a list for every parsed document. It does not:
  a document whose \<^verbatim>\<open>features\<close> is present and not an array makes \<^verbatim>\<open>.map\<close> fail.
\<close>

theorem extractEntries_features_not_array:
  "extractEntries (JObj [(''features'', JNum 1)]) = Inl TypeError"
  by (simp add: extractEntries_def)

text \<open>
  Claim C4, amended. For a document other than \<^verbatim>\<open>null\<close>: when \<^verbatim>\<open>features\<close> is missing
  or \<^verbatim>\<open>null\<close> the extractor returns the empty list; when it is an array the extractor
  returns the attribute payloads of its elements, in order, and drops every element that
  has none; when it is anything else the extractor throws a TypeError.
\<close>

theorem extractEntries_by_shape:
  assumes "fileContent \<noteq> JNull"
  shows "extractEntries fileContent =
           (case property ''features'' fileContent of
              None \<Rightarrow> Inr []
            | Some JNull \<Rightarrow> Inr []
            | Some (JArr features) \<Rightarrow> Inr (List.map_filter payload features)
            | Some other \<Rightarrow> Inl TypeError)"
proof (cases "property ''features'' fileContent")
  case None
  with assms show ?thesis by (simp add: extractEntries_def)
next
  case (Some v)
  with assms show ?thesis
    by (cases v) (simp_all add: extractEntries_def filter_Boolean_attributesOf)
qed

theorem extractEntries_by_shape_witness:
  "JObj [(''features'', JArr [feature record_1X, JNull, JObj [], feature (JNum 0)])] \<noteq> JNull \<and>
   JObj [] \<noteq> JNull \<and> JNum 5 \<noteq> JNull \<and>
   extractEntries (JObj [(''features'', JArr [feature record_1X, JNull, JObj [], feature (JNum 0)])])
     = Inr [record_1X] \<and>
   extractEntries (JObj []) = Inr [] \<and>
   extractEntries (JNum 5) = Inr []"
proof -
  have a: "JObj [(''features'', JArr [feature record_1X, JNull, JObj [], feature (JNum 0)])] \<noteq> JNull"
    by simp
  have b: "JObj [] \<noteq> JNull" by simp
  have c: "JNum 5 \<noteq> JNull" by simp
  have "record_1X \<noteq> JNull" by (simp add: record_1X_def)
  then have p: "List.map_filter payload [feature record_1X, JNull, JObj [], feature (JNum 0)] = [record_1X]"
    by (simp add: List.map_filter_simps payload_def feature_def record_1X_def)
  show ?thesis
    using extractEntries_by_shape [OF a] extractEntries_by_shape [OF b]
      extractEntries_by_shape [OF c] p
    by simp
qed

text \<open>
  Claim C5 says that every format other than \<^verbatim>\<open>"json"\<close> and \<^verbatim>\<open>"csv"\<close> raises the
  invalid-format error and that nothing is written. With the format \<^verbatim>\<open>"toString"\<close> the
  lookup finds the function inherited from \<^verbatim>\<open>Object.prototype\<close>, no error is raised and
  the text \<^verbatim>\<open>[object Undefined]\<close> is written to the output file.
\<close>

theorem toString_format_is_written:
  "saveEntries sample_runtime []
     (Some \<lparr>outputFile = Some ''out.txt'', format = Some ''toString''\<rparr>) =
   ([LogCreatingDirectory ''.'', MkdirRecursive ''.'', LogWriting 0 ''out.txt'',
     WriteFile ''out.txt'' (Text ''[object Undefined]'')],
    Fulfilled ())"
  by (simp add: saveEntries_def outputFileOf_def formatOf_def formatSerializers_def
      callSerializer_def Object_prototype_names_def sample_runtime_def Let_def)

text \<open>
  Claim C10. Whenever the exporter ends with the invalid-format error, the call that
  creates the parent directory of the output file has been made before and has succeeded,
  and no file has been written: the events are the first log line, the \<^verbatim>\<open>mkdir\<close> and
  the second log line.
\<close>

theorem directory_created_before_format_check:
  assumes "saveEntries rt entries options = (events, Rejected (InvalidExportFormat fmt))"
  shows "fsp_mkdir rt (path_dirname rt (outputFileOf options)) = None \<and>
         events = [LogCreatingDirectory (path_dirname rt (outputFileOf options)),
                   MkdirRecursive (path_dirname rt (outputFileOf options)),
                   LogWriting (length entries) (outputFileOf options)]"
proof (cases "fsp_mkdir rt (path_dirname rt (outputFileOf options))")
  case (Some message)
  with assms show ?thesis by (simp add: saveEntries_def Let_def)
next
  case mkdir: None
  show ?thesis
  proof (cases "formatSerializers (formatOf options)")
    case None
    with mkdir assms show ?thesis by (auto simp: saveEntries_def Let_def)
  next
    case (Some serializer)
    have "callSerializer rt serializer entries \<noteq> Inl (InvalidExportFormat fmt)"
      by (auto simp: callSerializer_def split: serializer.splits sum.splits)
    with mkdir Some assms show ?thesis
      by (auto simp: saveEntries_def Let_def split: sum.splits option.splits)
  qed
qed

theorem directory_created_before_format_check_witness:
  "saveEntries sample_runtime [record_1X]
     (Some \<lparr>outputFile = Some ''./output/geology-sk.csv'', format = Some ''xml''\<rparr>) =
     ([LogCreatingDirectory ''./output'', MkdirRecursive ''./output'',
       LogWriting 1 ''./output/geology-sk.csv''],
      Rejected (InvalidExportFormat ''xml'')) \<and>
   fsp_mkdir sample_runtime ''./output'' = None"
proof -
  have run: "saveEntries sample_runtime [record_1X]
     (Some \<lparr>outputFile = Some ''./output/geology-sk.csv'', format = Some ''xml''\<rparr>) =
     ([LogCreatingDirectory ''./output'', MkdirRecursive ''./output'',
       LogWriting 1 ''./output/geology-sk.csv''],
      Rejected (InvalidExportFormat ''xml''))"
    by (simp add: saveEntries_def outputFileOf_def formatOf_def formatSerializers_def
        Object_prototype_names_def sample_runtime_def Let_def)
  from directory_created_before_format_check [OF run] run show ?thesis
    by (simp add: outputFileOf_def sample_runtime_def)
qed

text \<open>
  Claim C3. For a file that can be read and whose text \<^verbatim>\<open>JSON.parse\<close> rejects, the
  loader returns the empty object instead of raising, the file contributes no record, and
  the merge of a file list that contains it behaves as the merge of the list without it:
  one returns a record sequence exactly when the other returns the same sequence, and one
  is rejected exactly when the other is.
\<close>

theorem malformed_file_contributes_nothing:
  assumes "fsp_readFile rt filename = Inr content"
    and "JSON_parse rt content = None"
    and "valid_schedule (length (before @ filename # after)) schedule"
    and "valid_schedule (length (before @ after)) schedule'"
  shows "loadFile rt filename = Inr (JObj []) \<and>
         fileTask rt filename = Inr [] \<and>
         (processEntryFiles rt schedule (before @ filename # after) = Fulfilled merged \<longleftrightarrow>
          processEntryFiles rt schedule' (before @ after) = Fulfilled merged) \<and>
         ((\<exists>reason. processEntryFiles rt schedule (before @ filename # after) = Rejected reason) \<longleftrightarrow>
          (\<exists>reason. processEntryFiles rt schedule' (before @ after) = Rejected reason))"
proof -
  have load: "loadFile rt filename = Inr (JObj [])"
    using assms(1,2) by (simp add: loadFile_def)
  then have task: "fileTask rt filename = Inr []"
    by (simp add: fileTask_def extractEntries_def)
  have same: "processEntryFiles rt schedule (before @ filename # after) = Fulfilled m \<longleftrightarrow>
      processEntryFiles rt schedule' (before @ after) = Fulfilled m" for m
    using task assms(3,4) by (rule processEntryFiles_skip_empty)
  have "(\<exists>reason. processEntryFiles rt schedule (before @ filename # after) = Rejected reason) \<longleftrightarrow>
      (\<exists>reason. processEntryFiles rt schedule' (before @ after) = Rejected reason)"
    unfolding processEntryFiles_rejected_iff [OF assms(3)]
      processEntryFiles_rejected_iff [OF assms(4)]
    by (simp add: same)
  with load task same show ?thesis by blast
qed

theorem malformed_file_contributes_nothing_witness:
  "fsp_readFile sample_runtime ''input/c.json'' = Inr ''<html>not found</html>'' \<and>
   JSON_parse sample_runtime ''<html>not found</html>'' = None \<and>
   valid_schedule (length ([''input/a.json''] @ ''input/c.json'' # [''input/b.json''])) [1, 2, 0] \<and>
   valid_schedule (length ([''input/a.json''] @ [''input/b.json''])) [0, 1] \<and>
   loadFile sample_runtime ''input/c.json'' = Inr (JObj []) \<and>
   processEntryFiles sample_runtime [0, 1] [''input/a.json'', ''input/b.json''] =
     Fulfilled [record_1X, record_2Z] \<and>
   processEntryFiles sample_runtime [1, 2, 0] [''input/a.json'', ''input/c.json'', ''input/b.json''] =
     Fulfilled [record_1X, record_2Z]"
proof -
  have r: "fsp_readFile sample_runtime ''input/c.json'' = Inr ''<html>not found</html>''"
    by (simp add: sample_runtime_def)
  have p: "JSON_parse sample_runtime ''<html>not found</html>'' = None"
    by (simp add: sample_runtime_def)
  have v: "valid_schedule (length ([''input/a.json''] @ ''input/c.json'' # [''input/b.json''])) [1, 2, 0]"
    by (auto simp: valid_schedule_def)
  have v': "valid_schedule (length ([''input/a.json''] @ [''input/b.json''])) [0, 1]"
    by (auto simp: valid_schedule_def)
  have run: "processEntryFiles sample_runtime [0, 1] [''input/a.json'', ''input/b.json''] =
      Fulfilled [record_1X, record_2Z]"
    by (simp add: processEntryFiles_def Promise_all_def sample_a sample_b uniqBy_def
        sample_objectids)
  from malformed_file_contributes_nothing [OF r p v v', of "[record_1X, record_2Z]"] run r p v v'
  show ?thesis by simp
qed

text \<open>
  Claim C7. When the glob matches no file, the merge returns no record and the exporter
  creates the directory and writes the output file with whatever the serializer gives for
  the empty record list: \<^verbatim>\<open>[]\<close> for the JSON format and the empty text for the CSV
  format, which is what \<^verbatim>\<open>JSON.stringify([], null, 2)\<close> and \<^verbatim>\<open>Papa.unparse([])\<close>
  return. The run of \<^verbatim>\<open>main\<close>, which exports CSV, succeeds, provided the directory
  can be created and the file written.
\<close>

theorem empty_input_gives_empty_output:
  assumes "readFiles rt ''input/*.json'' = Fulfilled []"
    and "fsp_mkdir rt (path_dirname rt file) = None"
    and "fsp_writeFile rt file (Text ''[]'') = None"
    and "fsp_writeFile rt file (Text []) = None"
    and "JSON_stringify rt [] = ''[]''"
    and "Papa_unparse rt [] = Inr []"
  shows "processEntryFiles rt schedule [] = Fulfilled [] \<and>
         saveEntries rt [] (Some \<lparr>outputFile = Some file, format = Some ''json''\<rparr>) =
           ([LogCreatingDirectory (path_dirname rt file), MkdirRecursive (path_dirname rt file),
             LogWriting 0 file, WriteFile file (Text ''[]'')],
            Fulfilled ()) \<and>
         saveEntries rt [] (Some \<lparr>outputFile = Some file, format = Some ''csv''\<rparr>) =
           ([LogCreatingDirectory (path_dirname rt file), MkdirRecursive (path_dirname rt file),
             LogWriting 0 file, WriteFile file (Text [])],
            Fulfilled ()) \<and>
         (file = ''./output/geology-sk.csv'' \<longrightarrow>
            main rt schedule =
              ([LogCreatingDirectory (path_dirname rt file), MkdirRecursive (path_dirname rt file),
                LogWriting 0 file, WriteFile file (Text [])],
               Fulfilled ()))"
proof -
  have settle_none: "settle [] sched slots = Inr slots" for sched :: "nat list" and slots :: "json list option list"
    by (induction sched) simp_all
  have merge: "processEntryFiles rt schedule [] = Fulfilled []"
    by (simp add: processEntryFiles_def Promise_all_def settle_none uniqBy_def)
  have json: "saveEntries rt [] (Some \<lparr>outputFile = Some file, format = Some ''json''\<rparr>) =
      ([LogCreatingDirectory (path_dirname rt file), MkdirRecursive (path_dirname rt file),
        LogWriting 0 file, WriteFile file (Text ''[]'')],
       Fulfilled ())"
    using assms(2,3,5)
    by (simp add: saveEntries_def outputFileOf_def formatOf_def formatSerializers_def
        callSerializer_def Let_def)
  have csv: "saveEntries rt [] (Some \<lparr>outputFile = Some file, format = Some ''csv''\<rparr>) =
      ([LogCreatingDirectory (path_dirname rt file), MkdirRecursive (path_dirname rt file),
        LogWriting 0 file, WriteFile file (Text [])],
       Fulfilled ())"
    using assms(2,4,6)
    by (simp add: saveEntries_def outputFileOf_def formatOf_def formatSerializers_def
        callSerializer_def Let_def)
  have "main rt schedule =
      ([LogCreatingDirectory (path_dirname rt file), MkdirRecursive (path_dirname rt file),
        LogWriting 0 file, WriteFile file (Text [])],
       Fulfilled ())" if "file = ''./output/geology-sk.csv''"
    using that assms(1) merge csv by (simp add: main_def)
  with merge json csv show ?thesis by blast
qed

theorem empty_input_gives_empty_output_witness:
  "readFiles empty_runtime ''input/*.json'' = Fulfilled [] \<and>
   fsp_mkdir empty_runtime (path_dirname empty_runtime ''./output/geology-sk.csv'') = None \<and>
   fsp_writeFile empty_runtime ''./output/geology-sk.csv'' (Text ''[]'') = None \<and>
   fsp_writeFile empty_runtime ''./output/geology-sk.csv'' (Text []) = None \<and>
   JSON_stringify empty_runtime [] = ''[]'' \<and>
   Papa_unparse empty_runtime [] = Inr [] \<and>
   main empty_runtime [] =
     ([LogCreatingDirectory ''./output'', MkdirRecursive ''./output'',
       LogWriting 0 ''./output/geology-sk.csv'', WriteFile ''./output/geology-sk.csv'' (Text [])],
      Fulfilled ())"
proof -
  have g: "readFiles empty_runtime ''input/*.json'' = Fulfilled []"
    by (simp add: readFiles_def empty_runtime_def sample_runtime_def)
  have m: "fsp_mkdir empty_runtime (path_dirname empty_runtime ''./output/geology-sk.csv'') = None"
    by (simp add: empty_runtime_def sample_runtime_def)
  have w1: "fsp_writeFile empty_runtime ''./output/geology-sk.csv'' (Text ''[]'') = None"
    by (simp add: empty_runtime_def sample_runtime_def)
  have w2: "fsp_writeFile empty_runtime ''./output/geology-sk.csv'' (Text []) = None"
    by (simp add: empty_runtime_def sample_runtime_def)
  have j: "JSON_stringify empty_runtime [] = ''[]''"
    by (simp add: empty_runtime_def sample_runtime_def)
  have c: "Papa_unparse empty_runtime [] = Inr []"
    by (simp add: empty_runtime_def sample_runtime_def)
  have d: "path_dirname empty_runtime ''./output/geology-sk.csv'' = ''./output''"
    by (simp add: empty_runtime_def sample_runtime_def)
  from empty_input_gives_empty_output [OF g m w1 w2 j c, of "[]"] g m w1 w2 j c d
  show ?thesis by simp
qed




end
